theory Spec2Isabelle
  imports Complex_Main "HOL-Library.Sublist"
begin

section \<open>Text primitives\<close>

text \<open>
  Python strings are modelled as \<open>string\<close>. The character classes and the case mapping are
  those of Python on ASCII text: a character outside ASCII has no class and no other case here.
  \<open>whitespace\<close> is the ASCII part of what \<open>str.isspace\<close>, \<open>str.strip\<close> and the pattern
  \<open>\s\<close> accept.
\<close>

definition lowers :: string where
  "lowers = ''abcdefghijklmnopqrstuvwxyz''"

definition uppers :: string where
  "uppers = ''ABCDEFGHIJKLMNOPQRSTUVWXYZ''"

definition digits :: string where
  "digits = ''0123456789''"

definition whitespace :: string where
  "whitespace = [CHR 0x09, CHR 0x0A, CHR 0x0B, CHR 0x0C, CHR 0x0D,
                 CHR 0x1C, CHR 0x1D, CHR 0x1E, CHR 0x1F, CHR 0x20]"

definition to_upper :: "char \<Rightarrow> char" where
  "to_upper c = (case map_of (zip lowers uppers) c of Some u \<Rightarrow> u | None \<Rightarrow> c)"

definition to_lower :: "char \<Rightarrow> char" where
  "to_lower c = (case map_of (zip uppers lowers) c of Some l \<Rightarrow> l | None \<Rightarrow> c)"

definition upper :: "string \<Rightarrow> string" where
  "upper s = map to_upper s"

definition lower :: "string \<Rightarrow> string" where
  "lower s = map to_lower s"

definition is_digit :: "char \<Rightarrow> bool" where
  "is_digit c = (c \<in> set digits)"

definition is_space :: "char \<Rightarrow> bool" where
  "is_space c = (c \<in> set whitespace)"

definition is_word :: "char \<Rightarrow> bool" where
  "is_word c = (c \<in> set lowers \<or> c \<in> set uppers \<or> c \<in> set digits \<or> c = CHR ''_'')"


definition startswith :: "string \<Rightarrow> string \<Rightarrow> bool" where
  "startswith s p = (take (length p) s = p)"



text \<open>\<open>contains t s\<close> is Python's \<open>t in s\<close> on strings.\<close>

fun contains :: "string \<Rightarrow> string \<Rightarrow> bool" where
  "contains t [] = (t = [])"
| "contains t (x # xs) = (startswith (x # xs) t \<or> contains t xs)"




section \<open>Regular expressions\<close>

text \<open>
  The patterns of the program are terms of \<open>regex\<close>, and \<open>rmatch\<close> is the backtracking
  matcher of Python's \<open>re\<close>: it returns every way to match a prefix of the subject, in the
  order in which backtracking tries them (a greedy repetition takes the longest run first,
  an alternation its left branch first), each with the named groups it bound, the text it
  consumed and the rest of the subject. The head of that list is the match \<open>re\<close> reports.
  The flag is \<open>re.IGNORECASE\<close>. Every repetition in the program is over one character
  class, which is what \<open>Star\<close> repeats.
\<close>

datatype cclass = Digit | Word | Space | NonSpace | AnyChar | OneOf string | NoneOf string

fun cmatch :: "bool \<Rightarrow> cclass \<Rightarrow> char \<Rightarrow> bool" where
  "cmatch ic Digit x = is_digit x"
| "cmatch ic Word x = is_word x"
| "cmatch ic Space x = is_space x"
| "cmatch ic NonSpace x = (\<not> is_space x)"
| "cmatch ic AnyChar x = (x \<noteq> CHR 0x0A)"
| "cmatch ic (OneOf cs) x = (if ic then to_lower x \<in> to_lower ` set cs else x \<in> set cs)"
| "cmatch ic (NoneOf cs) x = (\<not> (if ic then to_lower x \<in> to_lower ` set cs else x \<in> set cs))"

datatype regex =
    Lit char
  | LitCS char
  | Cls cclass
  | Eps
  | Seq regex regex
  | Alt regex regex
  | Star cclass
  | Group string regex

type_synonym caps = "(string \<times> string) list"

definition chr_eq :: "bool \<Rightarrow> char \<Rightarrow> char \<Rightarrow> bool" where
  "chr_eq ic c x = (if ic then to_lower c = to_lower x else c = x)"

fun star_splits :: "bool \<Rightarrow> cclass \<Rightarrow> string \<Rightarrow> (string \<times> string) list" where
  "star_splits ic k [] = [([], [])]"
| "star_splits ic k (x # xs) =
     (if cmatch ic k x then map (\<lambda>(m, r). (x # m, r)) (star_splits ic k xs) @ [([], x # xs)]
      else [([], x # xs)])"

primrec rmatch :: "bool \<Rightarrow> regex \<Rightarrow> string \<Rightarrow> (caps \<times> string \<times> string) list" where
  "rmatch ic (Lit c) s =
     (case s of [] \<Rightarrow> [] | x # xs \<Rightarrow> if chr_eq ic c x then [([], [x], xs)] else [])"
| "rmatch ic (LitCS c) s =
     (case s of [] \<Rightarrow> [] | x # xs \<Rightarrow> if c = x then [([], [x], xs)] else [])"
| "rmatch ic (Cls k) s =
     (case s of [] \<Rightarrow> [] | x # xs \<Rightarrow> if cmatch ic k x then [([], [x], xs)] else [])"
| "rmatch ic Eps s = [([], [], s)]"
| "rmatch ic (Seq a b) s =
     concat (map (\<lambda>(c1, m1, r1).
       map (\<lambda>(c2, m2, r2). (c1 @ c2, m1 @ m2, r2)) (rmatch ic b r1)) (rmatch ic a s))"
| "rmatch ic (Alt a b) s = rmatch ic a s @ rmatch ic b s"
| "rmatch ic (Star k) s = map (\<lambda>(m, r). ([], m, r)) (star_splits ic k s)"
| "rmatch ic (Group n a) s = map (\<lambda>(c, m, r). ((n, m) # c, m, r)) (rmatch ic a s)"

definition seqs :: "regex list \<Rightarrow> regex" where
  "seqs rs = foldr Seq rs Eps"

definition lits :: "string \<Rightarrow> regex" where
  "lits s = seqs (map Lit s)"




text \<open>\<open>pattern.match(s)\<close>: a match at the start of \<open>s\<close>; the result is its \<open>groupdict()\<close>.\<close>

definition re_match :: "bool \<Rightarrow> regex \<Rightarrow> string \<Rightarrow> caps option" where
  "re_match ic r s = (case rmatch ic r s of [] \<Rightarrow> None | (c, m, rest) # _ \<Rightarrow> Some c)"

text \<open>\<open>pattern.search(s)\<close>: the match at the leftmost position that has one.\<close>

fun re_search :: "bool \<Rightarrow> regex \<Rightarrow> string \<Rightarrow> caps option" where
  "re_search ic r [] = re_match ic r []"
| "re_search ic r (x # xs) =
     (case re_match ic r (x # xs) of Some c \<Rightarrow> Some c | None \<Rightarrow> re_search ic r xs)"


section \<open>The format patterns of \<open>LogParser\<close>\<close>









section \<open>Points in time\<close>

text \<open>
  A \<open>datetime.datetime\<close>. \<open>tzinfo\<close> is the UTC offset of an aware value in microseconds,
  \<open>None\<close> for a naive one.
\<close>

record datetime =
  year :: int
  month :: int
  day :: int
  hour :: int
  minute :: int
  second :: int
  microsecond :: int
  tzinfo :: "int option"

datatype error = ValueError | TypeError | FileNotFoundError | PermissionError
  | ZeroDivisionError | OSError

definition is_leap :: "int \<Rightarrow> bool" where
  "is_leap y = (y mod 4 = 0 \<and> (y mod 100 \<noteq> 0 \<or> y mod 400 = 0))"


definition days_before_year :: "int \<Rightarrow> int" where
  "days_before_year y = (y - 1) * 365 + (y - 1) div 4 - (y - 1) div 100 + (y - 1) div 400"

definition days_before_month :: "int \<Rightarrow> int \<Rightarrow> int" where
  "days_before_month y m =
     [0, 31, 59, 90, 120, 151, 181, 212, 243, 273, 304, 334] ! nat (m - 1)
       + (if m > 2 \<and> is_leap y then 1 else 0)"

definition toordinal :: "datetime \<Rightarrow> int" where
  "toordinal d = days_before_year (year d) + days_before_month (year d) (month d) + day d"


definition fields :: "datetime \<Rightarrow> int list" where
  "fields d = [year d, month d, day d, hour d, minute d, second d, microsecond d]"

fun lex_cmp :: "int list \<Rightarrow> int list \<Rightarrow> int" where
  "lex_cmp (x # xs) (y # ys) = (if x < y then - 1 else if x > y then 1 else lex_cmp xs ys)"
| "lex_cmp _ _ = 0"

definition utc_instant :: "datetime \<Rightarrow> int" where
  "utc_instant d =
     (((toordinal d * 24 + hour d) * 60 + minute d) * 60 + second d) * 1000000 + microsecond d
       - (case tzinfo d of None \<Rightarrow> 0 | Some off \<Rightarrow> off)"

text \<open>
  \<open>datetime._cmp\<close> for the ordering operators: two naive values, or two aware values with
  the same offset, compare field by field; two aware values with different offsets compare
  as instants; a naive value against an aware one raises \<open>TypeError\<close>.
\<close>

definition dt_cmp :: "datetime \<Rightarrow> datetime \<Rightarrow> error + int" where
  "dt_cmp a b =
     (case (tzinfo a, tzinfo b) of
        (None, None) \<Rightarrow> Inr (lex_cmp (fields a) (fields b))
      | (Some oa, Some ob) \<Rightarrow>
          if oa = ob then Inr (lex_cmp (fields a) (fields b))
          else Inr (if utc_instant a < utc_instant b then - 1
                    else if utc_instant a > utc_instant b then 1 else 0)
      | _ \<Rightarrow> Inl TypeError)"

definition dt_lt :: "datetime \<Rightarrow> datetime \<Rightarrow> error + bool" where
  "dt_lt a b = (case dt_cmp a b of Inl e \<Rightarrow> Inl e | Inr c \<Rightarrow> Inr (c < 0))"

definition dt_gt :: "datetime \<Rightarrow> datetime \<Rightarrow> error + bool" where
  "dt_gt a b = (case dt_cmp a b of Inl e \<Rightarrow> Inl e | Inr c \<Rightarrow> Inr (c > 0))"

definition dt_le :: "datetime \<Rightarrow> datetime \<Rightarrow> error + bool" where
  "dt_le a b = (case dt_cmp a b of Inl e \<Rightarrow> Inl e | Inr c \<Rightarrow> Inr (c \<le> 0))"

definition dt_ge :: "datetime \<Rightarrow> datetime \<Rightarrow> error + bool" where
  "dt_ge a b = (case dt_cmp a b of Inl e \<Rightarrow> Inl e | Inr c \<Rightarrow> Inr (c \<ge> 0))"

section \<open>\<open>datetime.strptime\<close>\<close>










section \<open>\<open>datetime.fromisoformat\<close>\<close>




section \<open>\<open>LogParser.parse_timestamp\<close>\<close>



section \<open>Rendering numbers and points in time\<close>

function show_nat :: "nat \<Rightarrow> string" where
  "show_nat n = (if n < 10 then [digits ! n] else show_nat (n div 10) @ [digits ! (n mod 10)])"
  by pat_completeness auto
termination
  by (relation "measure id") auto

declare show_nat.simps [simp del]

text \<open>\<open>str(i)\<close>, and \<open>'%0wd' % i\<close>.\<close>

definition show_int :: "int \<Rightarrow> string" where
  "show_int i = (if i < 0 then CHR ''-'' # show_nat (nat (- i)) else show_nat (nat i))"

definition zpad :: "nat \<Rightarrow> int \<Rightarrow> string" where
  "zpad w i =
     (if i < 0 then CHR ''-'' # replicate (w - 1 - length (show_nat (nat (- i)))) CHR ''0''
                      @ show_nat (nat (- i))
      else replicate (w - length (show_nat (nat i))) CHR ''0'' @ show_nat (nat i))"

definition format_offset :: "int option \<Rightarrow> string" where
  "format_offset tz =
     (case tz of
        None \<Rightarrow> []
      | Some off0 \<Rightarrow>
          let sign = (if off0 < 0 then ''-'' else ''+'');
              off = \<bar>off0\<bar>;
              hh = off div 3600000000;
              mm = (off mod 3600000000) div 60000000;
              ss = (off mod 60000000) div 1000000;
              us = off mod 1000000
          in sign @ zpad 2 hh @ '':'' @ zpad 2 mm
             @ (if ss \<noteq> 0 \<or> us \<noteq> 0
                then '':'' @ zpad 2 ss @ (if us \<noteq> 0 then ''.'' @ zpad 6 us else [])
                else []))"

definition date_isoformat :: "int \<times> int \<times> int \<Rightarrow> string" where
  "date_isoformat ymd = (case ymd of (y, m, d) \<Rightarrow> zpad 4 y @ ''-'' @ zpad 2 m @ ''-'' @ zpad 2 d)"

text \<open>\<open>d.isoformat(sep)\<close>; \<open>str(d)\<close> is \<open>d.isoformat(' ')\<close>.\<close>

definition isoformat_sep :: "char \<Rightarrow> datetime \<Rightarrow> string" where
  "isoformat_sep sep d =
     date_isoformat (year d, month d, day d) @ [sep]
       @ zpad 2 (hour d) @ '':'' @ zpad 2 (minute d) @ '':'' @ zpad 2 (second d)
       @ (if microsecond d \<noteq> 0 then ''.'' @ zpad 6 (microsecond d) else [])
       @ format_offset (tzinfo d)"

definition isoformat :: "datetime \<Rightarrow> string" where
  "isoformat d = isoformat_sep CHR ''T'' d"

definition date_of :: "datetime \<Rightarrow> int \<times> int \<times> int" where
  "date_of d = (year d, month d, day d)"

section \<open>\<open>LogEntry\<close>\<close>

record LogEntry =
  timestamp :: datetime
  level :: string
  message :: string
  source :: string
  raw_line :: string
  line_number :: int

text \<open>\<open>LogEntry.__init__\<close>: the level is stored in upper case.\<close>

definition LogEntry_init ::
  "datetime \<Rightarrow> string \<Rightarrow> string \<Rightarrow> string \<Rightarrow> string \<Rightarrow> int \<Rightarrow> LogEntry" where
  "LogEntry_init ts lv msg src raw n =
     \<lparr>timestamp = ts, level = upper lv, message = msg, source = src, raw_line = raw,
      line_number = n\<rparr>"

text \<open>\<open>LogEntry.__str__\<close>.\<close>

definition LogEntry_str :: "LogEntry \<Rightarrow> string" where
  "LogEntry_str e =
     ''['' @ isoformat_sep CHR '' '' (timestamp e) @ ''] '' @ level e @ '': '' @ message e"

record entry_dict =
  dict_timestamp :: string
  dict_level :: string
  dict_message :: string
  dict_source :: string
  dict_raw_line :: string
  dict_line_number :: int

definition to_dict :: "LogEntry \<Rightarrow> entry_dict" where
  "to_dict e =
     \<lparr>dict_timestamp = isoformat (timestamp e), dict_level = level e,
      dict_message = message e, dict_source = source e, dict_raw_line = raw_line e,
      dict_line_number = line_number e\<rparr>"

section \<open>\<open>LogParser.parse_line\<close>\<close>





section \<open>\<open>LogAnalyzer\<close>\<close>

text \<open>
  The statistics dictionary. A \<open>Counter\<close> is its list of items, in insertion order; the
  rates are exact quotients. \<open>None\<close> as the value of \<open>stats\<close> is the empty dictionary.
\<close>

record snapshot =
  total_entries :: nat
  level_distribution :: "(string \<times> nat) list"
  source_distribution :: "(string \<times> nat) list"
  date_distribution :: "(string \<times> nat) list"
  hourly_distribution :: "(int \<times> nat) list"
  error_count :: nat
  warning_count :: nat
  error_rate :: real
  warning_rate :: real
  date_range_start :: "string option"
  date_range_end :: "string option"
  top_error_messages :: "string list"
  top_warning_messages :: "string list"

record LogAnalyzer =
  entries :: "LogEntry list"
  stats :: "snapshot option"

definition LogAnalyzer_init :: LogAnalyzer where
  "LogAnalyzer_init = \<lparr>entries = [], stats = None\<rparr>"

fun counter_add :: "'a \<Rightarrow> ('a \<times> nat) list \<Rightarrow> ('a \<times> nat) list" where
  "counter_add k [] = [(k, 1)]"
| "counter_add k ((k', n) # c) =
     (if k = k' then (k', n + 1) # c else (k', n) # counter_add k c)"

definition Counter :: "'a list \<Rightarrow> ('a \<times> nat) list" where
  "Counter xs = foldl (\<lambda>c x. counter_add x c) [] xs"

definition py_truediv :: "nat \<Rightarrow> nat \<Rightarrow> error + real" where
  "py_truediv a b = (if b = 0 then Inl ZeroDivisionError else Inr (real a / real b))"

text \<open>\<open>min\<close> and \<open>max\<close> over a list: each element is compared with the best so far.\<close>

fun min_loop :: "datetime \<Rightarrow> datetime list \<Rightarrow> error + datetime" where
  "min_loop best [] = Inr best"
| "min_loop best (x # xs) =
     (case dt_lt x best of Inl e \<Rightarrow> Inl e | Inr b \<Rightarrow> min_loop (if b then x else best) xs)"

fun max_loop :: "datetime \<Rightarrow> datetime list \<Rightarrow> error + datetime" where
  "max_loop best [] = Inr best"
| "max_loop best (x # xs) =
     (case dt_gt x best of Inl e \<Rightarrow> Inl e | Inr b \<Rightarrow> max_loop (if b then x else best) xs)"

definition py_min :: "datetime list \<Rightarrow> error + datetime" where
  "py_min xs = (case xs of [] \<Rightarrow> Inl ValueError | x # xs' \<Rightarrow> min_loop x xs')"

definition py_max :: "datetime list \<Rightarrow> error + datetime" where
  "py_max xs = (case xs of [] \<Rightarrow> Inl ValueError | x # xs' \<Rightarrow> max_loop x xs')"

text \<open>
  Each method takes the analyzer and returns its result, or the exception that leaves it,
  together with the analyzer as the call leaves it.
\<close>

definition generate_statistics :: "LogAnalyzer \<Rightarrow> (error + snapshot option) \<times> LogAnalyzer" where
  "generate_statistics self =
     (if entries self = [] then (Inr None, self\<lparr>stats := None\<rparr>)
      else
        let level_counts = Counter (map level (entries self));
            source_counts = Counter (map source (entries self));
            timestamps = map timestamp (entries self);
            date_counts = Counter (map date_of timestamps);
            hour_counts = Counter (map hour timestamps);
            error_entries = filter (\<lambda>e. level e \<in> set [''ERROR'', ''FATAL'']) (entries self);
            warning_entries = filter (\<lambda>e. level e = ''WARNING'') (entries self)
        in
          (case py_truediv (length error_entries) (length (entries self)) of
             Inl e \<Rightarrow> (Inl e, self)
           | Inr er \<Rightarrow>
          (case py_truediv (length warning_entries) (length (entries self)) of
             Inl e \<Rightarrow> (Inl e, self)
           | Inr wr \<Rightarrow>
          (case py_min timestamps of
             Inl e \<Rightarrow> (Inl e, self)
           | Inr lo \<Rightarrow>
          (case py_max timestamps of
             Inl e \<Rightarrow> (Inl e, self)
           | Inr hi \<Rightarrow>
               let st = \<lparr>total_entries = length (entries self),
                         level_distribution = level_counts,
                         source_distribution = source_counts,
                         date_distribution = map (\<lambda>(k, v). (date_isoformat k, v)) date_counts,
                         hourly_distribution = hour_counts,
                         error_count = length error_entries,
                         warning_count = length warning_entries,
                         error_rate = er * 100,
                         warning_rate = wr * 100,
                         date_range_start = Some (isoformat lo),
                         date_range_end = Some (isoformat hi),
                         top_error_messages = map message (take 10 error_entries),
                         top_warning_messages = map message (take 10 warning_entries)\<rparr>
               in (Inr (Some st), self\<lparr>stats := Some st\<rparr>))))))"




text \<open>A list comprehension whose condition can raise.\<close>

fun filter_e :: "('a \<Rightarrow> error + bool) \<Rightarrow> 'a list \<Rightarrow> error + 'a list" where
  "filter_e p [] = Inr []"
| "filter_e p (x # xs) =
     (case p x of
        Inl e \<Rightarrow> Inl e
      | Inr b \<Rightarrow> (case filter_e p xs of Inl e \<Rightarrow> Inl e | Inr ys \<Rightarrow> Inr (if b then x # ys else ys)))"

definition re_escape :: "string \<Rightarrow> regex" where
  "re_escape kw = lits kw"

text \<open>
  The five \<open>if\<close> statements of \<open>filter_entries\<close>. A \<open>datetime\<close> is always true; a list or a
  string is true when it is not empty.
\<close>

definition filter_entries :: "LogAnalyzer \<Rightarrow> datetime option \<Rightarrow> datetime option
    \<Rightarrow> string list option \<Rightarrow> string list option \<Rightarrow> string option
    \<Rightarrow> (error + LogEntry list) \<times> LogAnalyzer" where
  "filter_entries self start_date end_date levels keywords src =
     (let filtered0 = entries self in
      (case (case start_date of
               None \<Rightarrow> Inr filtered0
             | Some sd \<Rightarrow> filter_e (\<lambda>e. dt_ge (timestamp e) sd) filtered0) of
         Inl e \<Rightarrow> (Inl e, self)
       | Inr filtered1 \<Rightarrow>
      (case (case end_date of
               None \<Rightarrow> Inr filtered1
             | Some ed \<Rightarrow> filter_e (\<lambda>e. dt_le (timestamp e) ed) filtered1) of
         Inl e \<Rightarrow> (Inl e, self)
       | Inr filtered2 \<Rightarrow>
           let filtered3 =
                 (case levels of
                    None \<Rightarrow> filtered2
                  | Some ls \<Rightarrow>
                      if ls = [] then filtered2
                      else let levels_upper = map upper ls
                           in filter (\<lambda>e. level e \<in> set levels_upper) filtered2);
               filtered4 =
                 (case keywords of
                    None \<Rightarrow> filtered3
                  | Some kws \<Rightarrow>
                      if kws = [] then filtered3
                      else let keyword_patterns = map re_escape kws
                           in filter (\<lambda>e. list_ex (\<lambda>pattern.
                                  re_search True pattern (message e) \<noteq> None) keyword_patterns)
                                filtered3);
               filtered5 =
                 (case src of
                    None \<Rightarrow> filtered4
                  | Some s \<Rightarrow>
                      if s = [] then filtered4
                      else filter (\<lambda>e. contains (lower s) (lower (source e))) filtered4)
           in (Inr filtered5, self))))"

text \<open>
  What \<open>export_results\<close> writes, by encoding: the object handed to \<open>json.dump\<close>, the rows
  handed to the \<open>csv\<close> writer, or the text written. \<open>writable p\<close> says that \<open>open(p, 'w')\<close>
  succeeds; its failure is the exception that the \<open>except\<close> clause turns into \<open>False\<close>.
\<close>

datatype content =
    JsonDoc string nat "snapshot option" "entry_dict list"
  | CsvDoc "string list list"
  | TextDoc string

definition export_results :: "(string \<Rightarrow> bool) \<Rightarrow> datetime \<Rightarrow> (string \<Rightarrow> content option)
    \<Rightarrow> LogAnalyzer \<Rightarrow> string \<Rightarrow> LogEntry list \<Rightarrow> string
    \<Rightarrow> bool \<times> (string \<Rightarrow> content option)" where
  "export_results writable now out self output_path es format_type =
     (if lower format_type = ''json'' then
        (if writable output_path
         then (True, out(output_path \<mapsto>
                 JsonDoc (isoformat now) (length es) (stats self) (map to_dict es)))
         else (False, out))
      else if lower format_type = ''csv'' then
        (if writable output_path
         then (True, out(output_path \<mapsto> CsvDoc (
                 [''Timestamp'', ''Level'', ''Source'', ''Message'', ''Line Number'']
                 # map (\<lambda>entry. [isoformat (timestamp entry), level entry, source entry,
                                   message entry, show_int (line_number entry)]) es)))
         else (False, out))
      else if lower format_type = ''txt'' then
        (if writable output_path
         then (True, out(output_path \<mapsto> TextDoc (
                 ''Log Analysis Report'' @ [CHR 0x0A]
                 @ ''Generated: '' @ isoformat_sep CHR '' '' now @ [CHR 0x0A]
                 @ ''Total Entries: '' @ show_nat (length es) @ [CHR 0x0A, CHR 0x0A]
                 @ concat (map (\<lambda>entry. LogEntry_str entry @ [CHR 0x0A]) es))))
         else (False, out))
      else (True, out))"

section \<open>Concrete inputs\<close>

definition sample_time :: datetime where
  "sample_time = \<lparr>year = 2024, month = 1, day = 15, hour = 10, minute = 30, second = 25,
                   microsecond = 0, tzinfo = None\<rparr>"

definition entry_a :: LogEntry where
  "entry_a = LogEntry_init sample_time ''error'' ''disk full'' ''db'' ''x'' 1"

definition entry_b :: LogEntry where
  "entry_b = LogEntry_init (sample_time\<lparr>hour := 11\<rparr>) ''Warning'' ''slow Query'' ''web'' ''y'' 2"

definition two_entries :: LogAnalyzer where
  "two_entries = \<lparr>entries = [entry_a, entry_b], stats = None\<rparr>"




section \<open>Notions used in the statements\<close>

text \<open>
  Two points in time can be ordered when both are naive or both are aware; a list is of
  one kind when all its members are naive or all are aware.
\<close>

definition same_kind :: "datetime \<Rightarrow> datetime \<Rightarrow> bool" where
  "same_kind a b = ((tzinfo a = None) = (tzinfo b = None))"

definition one_kind :: "datetime list \<Rightarrow> bool" where
  "one_kind ts = (list_all (\<lambda>t. tzinfo t = None) ts \<or> list_all (\<lambda>t. tzinfo t \<noteq> None) ts)"

text \<open>
  The subset that the filter contract describes. \<open>criteria_hold_stated\<close> reads the
  contract word for word: a criterion that is supplied must hold, with "or" over the members
  of a supplied level list or keyword list. \<open>criteria_hold\<close> differs in one point: a level
  list or keyword list that is supplied but empty filters nothing. An entry satisfies a time
  bound when the comparison is defined and true; levels are compared with the stored (upper
  case) level of the entry.
\<close>

definition criteria_hold_stated :: "datetime option \<Rightarrow> datetime option \<Rightarrow> string list option
    \<Rightarrow> string list option \<Rightarrow> string option \<Rightarrow> LogEntry \<Rightarrow> bool" where
  "criteria_hold_stated start_date end_date levels keywords src e =
     ((case start_date of None \<Rightarrow> True | Some sd \<Rightarrow> dt_ge (timestamp e) sd = Inr True)
      \<and> (case end_date of None \<Rightarrow> True | Some ed \<Rightarrow> dt_le (timestamp e) ed = Inr True)
      \<and> (case levels of None \<Rightarrow> True | Some ls \<Rightarrow> \<exists>l\<in>set ls. level e = upper l)
      \<and> (case keywords of None \<Rightarrow> True
          | Some kws \<Rightarrow> \<exists>kw\<in>set kws. sublist (lower kw) (lower (message e)))
      \<and> (case src of None \<Rightarrow> True | Some s \<Rightarrow> sublist (lower s) (lower (source e))))"

definition criteria_hold :: "datetime option \<Rightarrow> datetime option \<Rightarrow> string list option
    \<Rightarrow> string list option \<Rightarrow> string option \<Rightarrow> LogEntry \<Rightarrow> bool" where
  "criteria_hold start_date end_date levels keywords src e =
     ((case start_date of None \<Rightarrow> True | Some sd \<Rightarrow> dt_ge (timestamp e) sd = Inr True)
      \<and> (case end_date of None \<Rightarrow> True | Some ed \<Rightarrow> dt_le (timestamp e) ed = Inr True)
      \<and> (case levels of None \<Rightarrow> True | Some ls \<Rightarrow> ls = [] \<or> (\<exists>l\<in>set ls. level e = upper l))
      \<and> (case keywords of None \<Rightarrow> True
          | Some kws \<Rightarrow> kws = [] \<or> (\<exists>kw\<in>set kws. sublist (lower kw) (lower (message e))))
      \<and> (case src of None \<Rightarrow> True | Some s \<Rightarrow> sublist (lower s) (lower (source e))))"

text \<open>A bound can be compared with every record of the set.\<close>

definition comparable_with :: "datetime option \<Rightarrow> LogEntry list \<Rightarrow> bool" where
  "comparable_with bound es =
     (case bound of None \<Rightarrow> True | Some d \<Rightarrow> list_all (\<lambda>e. same_kind (timestamp e) d) es)"




section \<open>Statistics\<close>

lemma sum_counter_add: "sum_list (map snd (counter_add k c)) = Suc (sum_list (map snd c))"
  by (induction c) auto

lemma sum_foldl_counter_add:
  "sum_list (map snd (foldl (\<lambda>c x. counter_add x c) c0 xs)) = sum_list (map snd c0) + length xs"
  by (induction xs arbitrary: c0) (simp_all add: sum_counter_add)

lemma sum_Counter: "sum_list (map snd (Counter xs)) = length xs"
  by (simp add: Counter_def sum_foldl_counter_add)

lemma length_filter_disjoint:
  "(\<And>x. \<not> (P x \<and> Q x)) \<Longrightarrow> length (filter P xs) + length (filter Q xs) \<le> length xs"
  by (induction xs) auto

lemma dt_cmp_same_kind: "same_kind a b \<Longrightarrow> \<exists>c. dt_cmp a b = Inr c"
  by (auto simp add: dt_cmp_def same_kind_def split: option.splits)

lemma dt_cmp_error: "dt_cmp a b = Inl e \<Longrightarrow> e = TypeError \<and> \<not> same_kind a b"
  by (auto simp add: dt_cmp_def same_kind_def split: option.splits if_splits)

lemma min_loop_ok:
  "\<forall>x\<in>set xs. same_kind x best \<Longrightarrow> \<exists>m. min_loop best xs = Inr m"
proof (induction xs arbitrary: best)
  case Nil
  then show ?case by simp
next
  case (Cons x xs)
  from Cons.prems have xb: "same_kind x best" and rest: "\<forall>y\<in>set xs. same_kind y best" by auto
  from dt_cmp_same_kind [OF xb] obtain c where c: "dt_cmp x best = Inr c" by blast
  have "\<forall>y\<in>set xs. same_kind y (if c < 0 then x else best)"
    using xb rest by (auto simp add: same_kind_def)
  from Cons.IH [OF this] show ?case by (simp add: dt_lt_def c)
qed

lemma max_loop_ok:
  "\<forall>x\<in>set xs. same_kind x best \<Longrightarrow> \<exists>m. max_loop best xs = Inr m"
proof (induction xs arbitrary: best)
  case Nil
  then show ?case by simp
next
  case (Cons x xs)
  from Cons.prems have xb: "same_kind x best" and rest: "\<forall>y\<in>set xs. same_kind y best" by auto
  from dt_cmp_same_kind [OF xb] obtain c where c: "dt_cmp x best = Inr c" by blast
  have "\<forall>y\<in>set xs. same_kind y (if c > 0 then x else best)"
    using xb rest by (auto simp add: same_kind_def)
  from Cons.IH [OF this] show ?case by (simp add: dt_gt_def c)
qed

lemma min_loop_error: "min_loop best xs = Inl e \<Longrightarrow> e = TypeError"
  by (induction xs arbitrary: best)
     (auto simp add: dt_lt_def split: sum.splits dest: dt_cmp_error)

lemma max_loop_error: "max_loop best xs = Inl e \<Longrightarrow> e = TypeError"
  by (induction xs arbitrary: best)
     (auto simp add: dt_gt_def split: sum.splits dest: dt_cmp_error)

lemma one_kind_same_kind:
  "one_kind (t # ts) \<Longrightarrow> \<forall>x\<in>set ts. same_kind x t"
  by (auto simp add: one_kind_def same_kind_def list_all_iff)

lemma py_min_ok: "ts \<noteq> [] \<Longrightarrow> one_kind ts \<Longrightarrow> \<exists>m. py_min ts = Inr m"
  by (cases ts) (auto simp add: py_min_def dest: one_kind_same_kind intro: min_loop_ok)

lemma py_max_ok: "ts \<noteq> [] \<Longrightarrow> one_kind ts \<Longrightarrow> \<exists>m. py_max ts = Inr m"
  by (cases ts) (auto simp add: py_max_def dest: one_kind_same_kind intro: max_loop_ok)

lemma py_min_error: "ts \<noteq> [] \<Longrightarrow> py_min ts = Inl e \<Longrightarrow> e = TypeError"
  by (cases ts) (auto simp add: py_min_def dest: min_loop_error)

lemma py_max_error: "ts \<noteq> [] \<Longrightarrow> py_max ts = Inl e \<Longrightarrow> e = TypeError"
  by (cases ts) (auto simp add: py_max_def dest: max_loop_error)

text \<open>
  On a non-empty record set \<open>generate_statistics\<close> either raises what \<open>min\<close> or \<open>max\<close>
  raises, leaving the analyzer as it was, or stores and returns a snapshot.
\<close>

lemma generate_statistics_cases:
  assumes "entries self \<noteq> []"
  shows "(\<exists>e. generate_statistics self = (Inl e, self) \<and>
            (py_min (map timestamp (entries self)) = Inl e
             \<or> py_max (map timestamp (entries self)) = Inl e))
       \<or> (\<exists>lo hi st. py_min (map timestamp (entries self)) = Inr lo
            \<and> py_max (map timestamp (entries self)) = Inr hi
            \<and> generate_statistics self = (Inr (Some st), self\<lparr>stats := Some st\<rparr>)
            \<and> total_entries st = length (entries self)
            \<and> level_distribution st = Counter (map level (entries self))
            \<and> error_count st
                = length (filter (\<lambda>e. level e \<in> set [''ERROR'', ''FATAL'']) (entries self))
            \<and> warning_count st
                = length (filter (\<lambda>e. level e = ''WARNING'') (entries self)))"
  using assms
  by (auto simp add: generate_statistics_def py_truediv_def Let_def split: sum.splits)

text \<open>
  Claim C6. For every non-empty record set, the snapshot that \<open>generate_statistics\<close>
  produces has a level distribution whose counts sum to \<open>total_entries\<close>, and
  \<open>error_count + warning_count \<le> total_entries\<close>. A snapshot is produced whenever the
  timestamps of the set are of one kind (otherwise \<open>min\<close> raises \<open>TypeError\<close> and there is
  no snapshot to speak of).
\<close>

theorem statistics_counts:
  assumes "entries self \<noteq> []"
  shows "(\<forall>r self'. generate_statistics self = (Inr r, self') \<longrightarrow>
            (\<exists>st. r = Some st
               \<and> sum_list (map snd (level_distribution st)) = total_entries st
               \<and> error_count st + warning_count st \<le> total_entries st))
       \<and> (one_kind (map timestamp (entries self)) \<longrightarrow>
            (\<exists>st. generate_statistics self = (Inr (Some st), self\<lparr>stats := Some st\<rparr>)))"
proof (intro conjI allI impI)
  fix r self'
  assume g: "generate_statistics self = (Inr r, self')"
  from generate_statistics_cases [OF assms] g
  obtain st where st: "r = Some st" "total_entries st = length (entries self)"
      "level_distribution st = Counter (map level (entries self))"
      "error_count st = length (filter (\<lambda>e. level e \<in> set [''ERROR'', ''FATAL'']) (entries self))"
      "warning_count st = length (filter (\<lambda>e. level e = ''WARNING'') (entries self))"
    by auto
  have "error_count st + warning_count st \<le> total_entries st"
    unfolding st by (rule length_filter_disjoint) auto
  moreover have "sum_list (map snd (level_distribution st)) = total_entries st"
    by (simp add: st sum_Counter)
  ultimately show "\<exists>st. r = Some st
      \<and> sum_list (map snd (level_distribution st)) = total_entries st
      \<and> error_count st + warning_count st \<le> total_entries st"
    using st(1) by blast
next
  assume k: "one_kind (map timestamp (entries self))"
  from assms have ne: "map timestamp (entries self) \<noteq> []" by simp
  from py_min_ok [OF ne k] py_max_ok [OF ne k] generate_statistics_cases [OF assms]
  show "\<exists>st. generate_statistics self = (Inr (Some st), self\<lparr>stats := Some st\<rparr>)"
    by auto
qed

theorem statistics_counts_witness:
  "entries \<lparr>entries = [entry_a, entry_b], stats = None\<rparr> \<noteq> []
   \<and> one_kind (map timestamp (entries \<lparr>entries = [entry_a, entry_b], stats = None\<rparr>))
   \<and> (\<exists>st. fst (generate_statistics \<lparr>entries = [entry_a, entry_b], stats = None\<rparr>) = Inr (Some st)
          \<and> sum_list (map snd (level_distribution st)) = total_entries st
          \<and> error_count st + warning_count st \<le> total_entries st)"
proof -
  let ?a = "\<lparr>entries = [entry_a, entry_b], stats = None\<rparr>"
  have ne: "entries ?a \<noteq> []" by simp
  have k: "one_kind (map timestamp (entries ?a))"
    by (simp add: one_kind_def entry_a_def entry_b_def LogEntry_init_def sample_time_def)
  from statistics_counts [OF ne] k show ?thesis
    using ne by fastforce
qed

text \<open>
  Claim C8. On the empty record set \<open>generate_statistics\<close> returns the empty snapshot and
  stores it; and on no record set at all does it end in \<open>ZeroDivisionError\<close>: the two
  divisions are reached only when the set is not empty.
\<close>

theorem generate_statistics_empty:
  "(entries self = [] \<longrightarrow> generate_statistics self = (Inr None, self\<lparr>stats := None\<rparr>))
   \<and> fst (generate_statistics self) \<noteq> Inl ZeroDivisionError"
proof (cases "entries self = []")
  case True
  then show ?thesis by (simp add: generate_statistics_def)
next
  case False
  then have ne: "map timestamp (entries self) \<noteq> []" by simp
  from generate_statistics_cases [OF False] py_min_error [OF ne] py_max_error [OF ne]
  show ?thesis using False by auto
qed

theorem generate_statistics_empty_witness:
  "entries LogAnalyzer_init = []
   \<and> generate_statistics LogAnalyzer_init = (Inr None, LogAnalyzer_init)
   \<and> fst (generate_statistics LogAnalyzer_init) \<noteq> Inl ZeroDivisionError"
  using generate_statistics_empty [of LogAnalyzer_init]
  by (simp add: LogAnalyzer_init_def)

section \<open>Export\<close>

text \<open>
  Claim C9. For every record list and output path, \<open>export_results\<close> called with a format
  selector whose lower-case form is none of \<open>json\<close>, \<open>csv\<close>, \<open>txt\<close> returns \<open>True\<close> and writes
  nothing: the output store is the one it was given.
\<close>

theorem export_results_unrecognized_format:
  assumes "lower format_type \<noteq> ''json''" and "lower format_type \<noteq> ''csv''"
    and "lower format_type \<noteq> ''txt''"
  shows "export_results writable now out self output_path es format_type = (True, out)"
  using assms by (simp add: export_results_def)

theorem export_results_unrecognized_format_witness:
  "lower ''XML'' \<noteq> ''json'' \<and> lower ''XML'' \<noteq> ''csv'' \<and> lower ''XML'' \<noteq> ''txt''
   \<and> export_results (\<lambda>p. False) sample_time Map.empty LogAnalyzer_init ''out.xml'' [] ''XML''
       = (True, Map.empty)"
proof -
  have h: "lower ''XML'' \<noteq> ''json''" "lower ''XML'' \<noteq> ''csv''" "lower ''XML'' \<noteq> ''txt''"
    by code_simp+
  show ?thesis
    using h export_results_unrecognized_format [OF h, of "\<lambda>p. False" sample_time Map.empty
        LogAnalyzer_init "''out.xml''" "[]"]
    by simp
qed

section \<open>Filtering\<close>

lemma lower_Nil: "lower [] = []"
  by (simp add: lower_def)

lemma startswith_iff: "startswith s p \<longleftrightarrow> prefix p s"
  by (metis append_eq_conv_conj prefix_def startswith_def take_is_prefix)

lemma contains_iff: "contains t s \<longleftrightarrow> sublist t s"
  by (induction s) (auto simp add: startswith_iff sublist_Cons_right)

lemma rmatch_lits:
  "rmatch ic (lits k) s =
     (if length k \<le> length s \<and> list_all2 (chr_eq ic) k (take (length k) s)
      then [([], take (length k) s, drop (length k) s)] else [])"
proof (induction k arbitrary: s)
  case Nil
  then show ?case by (simp add: lits_def seqs_def)
next
  case (Cons c k)
  have l: "lits (c # k) = Seq (Lit c) (lits k)" by (simp add: lits_def seqs_def)
  show ?case
    by (cases s) (simp_all add: l Cons.IH)
qed

lemma list_all2_lower: "length k = length t \<Longrightarrow> list_all2 (chr_eq True) k t \<longleftrightarrow> lower k = lower t"
  by (induction k t rule: list_induct2) (simp_all add: chr_eq_def lower_def)

lemma prefix_take_iff: "prefix a b \<longleftrightarrow> length a \<le> length b \<and> a = take (length a) b"
  by (metis append_eq_conv_conj prefix_def prefix_length_le take_is_prefix)

lemma re_match_lits:
  "re_match True (lits k) s \<noteq> None \<longleftrightarrow> prefix (lower k) (lower s)"
proof -
  have "re_match True (lits k) s \<noteq> None
      \<longleftrightarrow> length k \<le> length s \<and> list_all2 (chr_eq True) k (take (length k) s)"
    by (simp add: re_match_def rmatch_lits)
  also have "\<dots> \<longleftrightarrow> length k \<le> length s \<and> lower k = lower (take (length k) s)"
    using list_all2_lower [of k "take (length k) s"] by auto
  also have "\<dots> \<longleftrightarrow> prefix (lower k) (lower s)"
    unfolding lower_def by (simp add: prefix_take_iff take_map)
  finally show ?thesis .
qed

lemma re_search_Cons:
  "re_search ic r (x # xs) \<noteq> None \<longleftrightarrow> re_match ic r (x # xs) \<noteq> None \<or> re_search ic r xs \<noteq> None"
  by (simp split: option.splits)

lemma re_search_lits:
  "re_search True (lits k) s \<noteq> None \<longleftrightarrow> sublist (lower k) (lower s)"
proof (induction s)
  case Nil
  show ?case using re_match_lits [of k "[]"] by (simp add: lower_def)
next
  case (Cons x xs)
  have "lower (x # xs) = to_lower x # lower xs" by (simp add: lower_def)
  then show ?case
    using Cons.IH re_match_lits [of k "x # xs"]
    by (simp only: re_search_Cons sublist_Cons_right)
qed

lemma re_search_lits_ex:
  "(\<exists>y. re_search True (lits k) s = Some y) \<longleftrightarrow> sublist (lower k) (lower s)"
  using re_search_lits [of k s] by auto

lemma filter_e_Inr:
  "filter_e p xs = Inr ys \<Longrightarrow> ys = filter (\<lambda>x. p x = Inr True) xs \<and> (\<forall>x\<in>set xs. \<exists>b. p x = Inr b)"
  by (induction xs arbitrary: ys) (auto split: sum.splits)

lemma filter_e_ok:
  "\<forall>x\<in>set xs. \<exists>b. p x = Inr b \<Longrightarrow> filter_e p xs = Inr (filter (\<lambda>x. p x = Inr True) xs)"
  by (induction xs) (auto split: sum.splits)


lemma filter_e_idem:
  "filter_e p xs = Inr ys \<Longrightarrow> filter_e p ys = Inr ys"
proof -
  assume a: "filter_e p xs = Inr ys"
  from filter_e_Inr [OF a] have ys: "ys = filter (\<lambda>x. p x = Inr True) xs"
    and ok: "\<forall>x\<in>set xs. \<exists>b. p x = Inr b" by auto
  have "\<forall>x\<in>set ys. \<exists>b. p x = Inr b" using ys ok by auto
  from filter_e_ok [OF this] show ?thesis by (simp add: ys)
qed

lemma filter_entries_snd: "snd (filter_entries self sd ed lv kw src) = self"
  by (simp add: filter_entries_def Let_def split: sum.splits option.splits)

lemma filter_entries_Inr:
  assumes "filter_entries self sd ed lv kw src = (Inr r, self')"
  shows "r = filter (criteria_hold sd ed lv kw src) (entries self)"
proof -
  let ?s1 = "case sd of None \<Rightarrow> Inr (entries self)
             | Some d \<Rightarrow> filter_e (\<lambda>e. dt_ge (timestamp e) d) (entries self)"
  obtain f1 where f1: "?s1 = Inr f1"
    using assms by (cases ?s1) (simp_all add: filter_entries_def Let_def)
  let ?s2 = "case ed of None \<Rightarrow> Inr f1
             | Some d \<Rightarrow> filter_e (\<lambda>e. dt_le (timestamp e) d) f1"
  obtain f2 where f2: "?s2 = Inr f2"
    using assms f1 by (cases ?s2) (simp_all add: filter_entries_def Let_def)
  have e1: "f1 = filter (\<lambda>e. case sd of None \<Rightarrow> True | Some d \<Rightarrow> dt_ge (timestamp e) d = Inr True) (entries self)"
    using f1 by (cases sd) (auto dest: filter_e_Inr)
  have e2: "f2 = filter (\<lambda>e. case ed of None \<Rightarrow> True | Some d \<Rightarrow> dt_le (timestamp e) d = Inr True) f1"
    using f2 by (cases ed) (auto dest: filter_e_Inr)
  have "r = filter (\<lambda>e. case src of None \<Rightarrow> True | Some s \<Rightarrow> sublist (lower s) (lower (source e)))
          (filter (\<lambda>e. case kw of None \<Rightarrow> True | Some kws \<Rightarrow> kws = [] \<or> (\<exists>k\<in>set kws. sublist (lower k) (lower (message e))))
          (filter (\<lambda>e. case lv of None \<Rightarrow> True | Some ls \<Rightarrow> ls = [] \<or> (\<exists>l\<in>set ls. level e = upper l)) f2))"
    using assms f1 f2
    apply (simp add: filter_entries_def Let_def)
    apply (cases lv; cases kw; cases src)
    apply (auto simp add: contains_iff list_ex_iff re_escape_def re_search_lits_ex lower_Nil intro!: filter_cong)
    done
  then show ?thesis
    unfolding e2 e1 criteria_hold_def by (auto intro!: filter_cong)
qed


lemma dt_ge_same_kind: "same_kind a b \<Longrightarrow> \<exists>x. dt_ge a b = Inr x"
  using dt_cmp_same_kind [of a b] by (auto simp add: dt_ge_def)

lemma dt_le_same_kind: "same_kind a b \<Longrightarrow> \<exists>x. dt_le a b = Inr x"
  using dt_cmp_same_kind [of a b] by (auto simp add: dt_le_def)

lemma filter_entries_defined:
  assumes "\<And>d e. sd = Some d \<Longrightarrow> e \<in> set (entries self) \<Longrightarrow> \<exists>b. dt_ge (timestamp e) d = Inr b"
    and "\<And>d e. ed = Some d \<Longrightarrow> e \<in> set (entries self) \<Longrightarrow> \<exists>b. dt_le (timestamp e) d = Inr b"
  shows "\<exists>r. filter_entries self sd ed lv kw src = (Inr r, self)"
proof -
  let ?s1 = "case sd of None \<Rightarrow> Inr (entries self)
             | Some d \<Rightarrow> filter_e (\<lambda>e. dt_ge (timestamp e) d) (entries self)"
  have "\<exists>f1. ?s1 = Inr f1 \<and> set f1 \<subseteq> set (entries self)"
  proof (cases sd)
    case None
    then show ?thesis by simp
  next
    case (Some d)
    then have "\<forall>e\<in>set (entries self). \<exists>b. dt_ge (timestamp e) d = Inr b"
      using assms(1) by blast
    from filter_e_ok [OF this] show ?thesis using Some by auto
  qed
  then obtain f1 where f1: "?s1 = Inr f1" and sub: "set f1 \<subseteq> set (entries self)" by blast
  let ?s2 = "case ed of None \<Rightarrow> Inr f1
             | Some d \<Rightarrow> filter_e (\<lambda>e. dt_le (timestamp e) d) f1"
  have "\<exists>f2. ?s2 = Inr f2"
  proof (cases ed)
    case None
    then show ?thesis by simp
  next
    case (Some d)
    then have "\<forall>e\<in>set f1. \<exists>b. dt_le (timestamp e) d = Inr b"
      using assms(2) sub by blast
    from filter_e_ok [OF this] show ?thesis using Some by auto
  qed
  then obtain f2 where f2: "?s2 = Inr f2" by blast
  show ?thesis
    using f1 f2 by (simp add: filter_entries_def Let_def)
qed

lemma filter_entries_comparable:
  assumes "comparable_with sd (entries self)" and "comparable_with ed (entries self)"
  shows "filter_entries self sd ed lv kw src
           = (Inr (filter (criteria_hold sd ed lv kw src) (entries self)), self)"
proof -
  have "\<exists>r. filter_entries self sd ed lv kw src = (Inr r, self)"
  proof (rule filter_entries_defined)
    fix d e assume "sd = Some d" "e \<in> set (entries self)"
    then show "\<exists>b. dt_ge (timestamp e) d = Inr b"
      using assms(1) by (auto simp add: comparable_with_def list_all_iff intro: dt_ge_same_kind)
  next
    fix d e assume "ed = Some d" "e \<in> set (entries self)"
    then show "\<exists>b. dt_le (timestamp e) d = Inr b"
      using assms(2) by (auto simp add: comparable_with_def list_all_iff intro: dt_le_same_kind)
  qed
  then obtain r where r: "filter_entries self sd ed lv kw src = (Inr r, self)" by blast
  from filter_entries_Inr [OF r] r show ?thesis by simp
qed

lemma filter_entries_again:
  assumes "filter_entries self sd ed lv kw src = (Inr r, self')"
  shows "filter_entries (self\<lparr>entries := r\<rparr>) sd ed lv kw src = (Inr r, self\<lparr>entries := r\<rparr>)"
proof -
  let ?P = "criteria_hold sd ed lv kw src"
  from filter_entries_Inr [OF assms] have r: "r = filter ?P (entries self)" .
  have "\<exists>r'. filter_entries (self\<lparr>entries := r\<rparr>) sd ed lv kw src = (Inr r', self\<lparr>entries := r\<rparr>)"
  proof (rule filter_entries_defined)
    fix d e assume "sd = Some d" "e \<in> set (entries (self\<lparr>entries := r\<rparr>))"
    then have "?P e" using r by simp
    with \<open>sd = Some d\<close> show "\<exists>b. dt_ge (timestamp e) d = Inr b"
      by (auto simp add: criteria_hold_def)
  next
    fix d e assume "ed = Some d" "e \<in> set (entries (self\<lparr>entries := r\<rparr>))"
    then have "?P e" using r by simp
    with \<open>ed = Some d\<close> show "\<exists>b. dt_le (timestamp e) d = Inr b"
      by (auto simp add: criteria_hold_def)
  qed
  then obtain r' where r': "filter_entries (self\<lparr>entries := r\<rparr>) sd ed lv kw src
      = (Inr r', self\<lparr>entries := r\<rparr>)" by blast
  from filter_entries_Inr [OF r'] have "r' = filter ?P r" by simp
  also have "\<dots> = r" by (simp add: r)
  finally show ?thesis using r' by simp
qed

text \<open>
  Claim C4, amended. Whenever \<open>filter_entries\<close> returns a list, it is exactly the list of
  the entries that satisfy all supplied criteria, in their order (and across filter kinds;
  or within the level list and within the keyword list), where a criterion that is absent,
  or a level list, keyword list or source string that is empty, filters nothing; levels match
  after upper-casing, keywords by case-insensitive substring search in the message, the
  source by case-insensitive containment. It returns a list whenever each supplied time bound
  can be compared with the timestamp of every record.
\<close>

theorem filter_entries_exact:
  "(\<forall>r self'. filter_entries self sd ed lv kw src = (Inr r, self') \<longrightarrow>
       r = filter (criteria_hold sd ed lv kw src) (entries self))
   \<and> (comparable_with sd (entries self) \<and> comparable_with ed (entries self) \<longrightarrow>
       filter_entries self sd ed lv kw src
         = (Inr (filter (criteria_hold sd ed lv kw src) (entries self)), self))"
  using filter_entries_Inr filter_entries_comparable by blast

theorem filter_entries_exact_witness:
  "comparable_with (Some sample_time) (entries two_entries)
   \<and> comparable_with None (entries two_entries)
   \<and> filter_entries two_entries (Some sample_time) None (Some [''error'']) (Some [''DISK''])
        (Some ''D'') = (Inr [entry_a], two_entries)
   \<and> filter (criteria_hold (Some sample_time) None (Some [''error'']) (Some [''DISK''])
        (Some ''D'')) (entries two_entries) = [entry_a]"
proof -
  have c1: "comparable_with (Some sample_time) (entries two_entries)" by code_simp
  have c2: "comparable_with None (entries two_entries)" by code_simp
  have ev: "filter_entries two_entries (Some sample_time) None (Some [''error''])
      (Some [''DISK'']) (Some ''D'') = (Inr [entry_a], two_entries)" by code_simp
  from filter_entries_exact [of two_entries "Some sample_time" None "Some [''error'']"
      "Some [''DISK'']" "Some ''D''"] c1 c2 ev
  show ?thesis by simp
qed

text \<open>
  Claim C4 as stated fails for a level set that is supplied and empty: no entry has a level
  in the empty set, and \<open>filter_entries\<close> returns every entry.
\<close>

theorem filter_entries_empty_levels_counterexample:
  "filter_entries two_entries None None (Some []) None None = (Inr [entry_a, entry_b], two_entries)
   \<and> filter (criteria_hold_stated None None (Some []) None None) (entries two_entries) = []"
proof -
  have "filter_entries two_entries None None (Some []) None None
      = (Inr [entry_a, entry_b], two_entries)" by code_simp
  moreover have "filter (criteria_hold_stated None None (Some []) None None) (entries two_entries) = []"
    by (simp add: criteria_hold_stated_def)
  ultimately show ?thesis by simp
qed

text \<open>
  Claim C5. \<open>filter_entries\<close> leaves the analyzer as it was; a list it returns is a
  subsequence of the record set, and filtering that list again with the same criteria
  returns it unchanged. It returns a list whenever the time bounds can be compared with
  every record.
\<close>

theorem filter_entries_narrowing:
  "snd (filter_entries self sd ed lv kw src) = self
   \<and> (\<forall>r. fst (filter_entries self sd ed lv kw src) = Inr r \<longrightarrow>
         subseq r (entries self) \<and> set r \<subseteq> set (entries self)
         \<and> filter_entries (self\<lparr>entries := r\<rparr>) sd ed lv kw src = (Inr r, self\<lparr>entries := r\<rparr>))
   \<and> (comparable_with sd (entries self) \<and> comparable_with ed (entries self) \<longrightarrow>
         (\<exists>r. fst (filter_entries self sd ed lv kw src) = Inr r))"
proof (intro conjI allI impI)
  show "snd (filter_entries self sd ed lv kw src) = self" by (rule filter_entries_snd)
next
  fix r assume a: "fst (filter_entries self sd ed lv kw src) = Inr r"
  then have eq: "filter_entries self sd ed lv kw src = (Inr r, self)"
    using filter_entries_snd [of self sd ed lv kw src] by (metis prod.collapse)
  from filter_entries_Inr [OF eq] show "subseq r (entries self)" by simp
  from filter_entries_Inr [OF eq] show "set r \<subseteq> set (entries self)" by auto
  from filter_entries_again [OF eq]
  show "filter_entries (self\<lparr>entries := r\<rparr>) sd ed lv kw src = (Inr r, self\<lparr>entries := r\<rparr>)" .
next
  assume "comparable_with sd (entries self) \<and> comparable_with ed (entries self)"
  then show "\<exists>r. fst (filter_entries self sd ed lv kw src) = Inr r"
    using filter_entries_comparable [of sd self ed lv kw src] by simp
qed

theorem filter_entries_narrowing_witness:
  "comparable_with None (entries two_entries)
   \<and> comparable_with (Some (sample_time\<lparr>hour := 10\<rparr>)) (entries two_entries)
   \<and> fst (filter_entries two_entries None (Some (sample_time\<lparr>hour := 10\<rparr>)) None None None)
       = Inr [entry_a]
   \<and> snd (filter_entries two_entries None (Some (sample_time\<lparr>hour := 10\<rparr>)) None None None)
       = two_entries
   \<and> subseq [entry_a] (entries two_entries)
   \<and> filter_entries (two_entries\<lparr>entries := [entry_a]\<rparr>) None
        (Some (sample_time\<lparr>hour := 10\<rparr>)) None None None
       = (Inr [entry_a], two_entries\<lparr>entries := [entry_a]\<rparr>)"
proof -
  have c1: "comparable_with None (entries two_entries)" by code_simp
  have c2: "comparable_with (Some (sample_time\<lparr>hour := 10\<rparr>)) (entries two_entries)" by code_simp
  have ev: "fst (filter_entries two_entries None (Some (sample_time\<lparr>hour := 10\<rparr>)) None None None)
      = Inr [entry_a]" by code_simp
  from filter_entries_narrowing [of two_entries None "Some (sample_time\<lparr>hour := 10\<rparr>)" None None None]
    c1 c2 ev
  show ?thesis by simp
qed

section \<open>The matcher\<close>

lemma star_splits_sound:
  "(m, r) \<in> set (star_splits ic k s) \<Longrightarrow> s = m @ r \<and> list_all (cmatch ic k) m"
  by (induction s arbitrary: m r) (auto split: if_splits)

lemma rmatch_sound:
  "(c, m, r) \<in> set (rmatch ic rx s) \<Longrightarrow> s = m @ r"
proof (induction rx arbitrary: s c m r)
  case (Seq a b)
  then show ?case by (auto; blast)
next
  case (Star k)
  then show ?case by (auto dest: star_splits_sound)
qed (auto split: list.splits if_splits)

















section \<open>Classification of a line\<close>












section \<open>The keyword fallback\<close>


















section \<open>Loading a file\<close>





section \<open>Timestamp normalization\<close>


end
